theory Spec2Isabelle
  imports Main "HOL-Library.Word" "HOL-Library.Sublist"
begin

unbundle bit_operations_syntax

section \<open>The llvm\_trace plugin: data model\<close>

text \<open>
  The plugin keeps a dynamic value buffer, two output streams (the value log
  \<open>memlog\<close> and the ledger \<open>funclog\<close>) and, in user mode, two file descriptors.
  Every function of \<open>llvm_trace.cpp\<close> below takes the plugin state and returns the
  new one; a crash (failed assertion, use of a null or closed stream, buffer
  overflow) is an error value. The hooks' return value is always 0 and is left out,
  as are the unused \<open>CPUState\<close> argument and the diagnostic \<open>printf\<close> output.
\<close>

type_synonym byte = "8 word"

datatype error =
    AssertionFailure
  | NullStream
  | ClosedStream
  | OutOfBounds
  | BufferOverflow

text \<open>
  A stdio stream (\<open>FILE *\<close>): a null pointer, or a stream that is open or closed.
  A stream holds the sequence of writes the program has made to it, in order, a
  write of no bytes being an empty entry. Their concatenation is what has been
  written to the stream; stdio may still hold a part of it in the stream's buffer.
\<close>

datatype 'a FILE = Null | Open "'a list list" | Closed "'a list list"

fun writes :: "'a FILE \<Rightarrow> 'a list list" where
  "writes Null = []"
| "writes (Open ws) = ws"
| "writes (Closed ws) = ws"

definition contents :: "'a FILE \<Rightarrow> 'a list" where
  "contents f = concat (writes f)"

text \<open>
  The bytes that are in the file of a fully buffered stream whose buffer holds
  \<open>bufsiz\<close> bytes, when the program never flushes it: a prefix of what has been
  written, the rest fitting the buffer; nothing before the buffer has filled; and
  everything once the stream is closed. A stream that \<open>fopen\<close> opens on a regular
  file is fully buffered, and the source calls neither \<open>fflush\<close> nor \<open>setvbuf\<close> on
  \<open>funclog\<close>.
\<close>

fun in_file :: "nat \<Rightarrow> 'a FILE \<Rightarrow> 'a list \<Rightarrow> bool" where
  "in_file bufsiz Null bs = (bs = [])"
| "in_file bufsiz (Open ws) bs =
     (prefix bs (concat ws) \<and> length (concat ws) - length bs \<le> bufsiz
      \<and> (length (concat ws) < bufsiz \<longrightarrow> bs = []))"
| "in_file bufsiz (Closed ws) bs = (bs = concat ws)"

text \<open>
  \<open>fwrite(ptr, n, 1, f)\<close> on an array \<open>ptr\<close>: one write of the first
  \<open>n\<close> elements. Reading past the array, or writing through a null or closed
  stream, is undefined in C and an error here.
\<close>

definition fwrite :: "'a list \<Rightarrow> nat \<Rightarrow> 'a FILE \<Rightarrow> error + 'a FILE" where
  "fwrite ptr n f =
     (case f of
        Null \<Rightarrow> Inl NullStream
      | Closed ws \<Rightarrow> Inl ClosedStream
      | Open ws \<Rightarrow>
          if n \<le> length ptr then Inr (Open (ws @ [take n ptr])) else Inl OutOfBounds)"

text \<open>
  \<open>fprintf(f, ...)\<close>, given the formatted text: the text is written to the stream.
  What of it is in the file is told by \<open>in_file\<close>.
\<close>

definition fprintf :: "char FILE \<Rightarrow> string \<Rightarrow> error + char FILE" where
  "fprintf f text =
     (case f of
        Null \<Rightarrow> Inl NullStream
      | Closed ws \<Rightarrow> Inl ClosedStream
      | Open ws \<Rightarrow> Inr (Open (ws @ [text])))"

definition fclose :: "'a FILE \<Rightarrow> error + 'a FILE" where
  "fclose f =
     (case f of
        Null \<Rightarrow> Inl NullStream
      | Closed ws \<Rightarrow> Inl ClosedStream
      | Open ws \<Rightarrow> Inr (Closed ws))"

definition newline :: char where
  "newline = CHR 0x0A"

subsection \<open>The dynamic value buffer\<close>

text \<open>
  Modelled from the spec: the declaration of \<open>DynValBuffer\<close> (\<open>panda_memlog.h\<close>) is
  not among the sources. The spec gives it a fixed capacity and a cursor with
  \<open>0 \<le> cursor \<le> capacity\<close>; the source reads the fields \<open>start\<close> (the buffer base)
  and \<open>cur_size\<close> (the cursor, in bytes). The capacity is the length of the storage.
\<close>

record DynValBuffer =
  start :: "byte list"
  cur_size :: nat

definition capacity :: "DynValBuffer \<Rightarrow> nat" where
  "capacity b = length (start b)"

text \<open>
  Modelled from the spec: \<open>clear_dynval_buffer\<close> is not among the sources. The spec's
  \<open>reset()\<close> clears the cursor to 0 without deallocating.
\<close>

definition clear_dynval_buffer :: "DynValBuffer \<Rightarrow> DynValBuffer" where
  "clear_dynval_buffer b = b\<lparr>cur_size := 0\<rparr>"

text \<open>
  Modelled from the spec: the logged event (\<open>DynValEntry\<close>) is not declared in the
  sources. The spec gives it an entry kind, an operation and a pointer-sized
  payload, both enumerations being open-ended.
\<close>

datatype DynValEntryType = Address | Value | BranchTarget | ExceptionMarker | OtherEntry nat

datatype LogOp = Load | Store | CompareAndFork | OtherOp nat

record LoggedEvent =
  entryKind :: DynValEntryType
  operation :: LogOp
  payload :: "64 word"

text \<open>
  The byte layout of an event and the operation and payload fields of the exception
  marker are fixed neither by the sources nor by the spec: they are a parameter.
\<close>

record encoder =
  encode :: "LoggedEvent \<Rightarrow> byte list"
  exception_entry :: LoggedEvent

text \<open>
  Modelled from the spec: appending encoded bytes at the cursor. A write that would
  exceed the capacity is fatal; otherwise the bytes are stored at the cursor and the
  cursor advances by their number.
\<close>

definition write_dynval_buffer :: "DynValBuffer \<Rightarrow> byte list \<Rightarrow> error + DynValBuffer" where
  "write_dynval_buffer b bs =
     (if cur_size b + length bs \<le> length (start b)
      then Inr (b\<lparr>start := take (cur_size b) (start b) @ bs
                            @ drop (cur_size b + length bs) (start b),
                  cur_size := cur_size b + length bs\<rparr>)
      else Inl BufferOverflow)"

text \<open>
  Modelled from the spec: \<open>log_dynval\<close> is only linked into the JIT by the sources
  (\<open>llvm_init\<close>), not defined there. The spec's \<open>record(entryKind, operation, payload)\<close>
  appends one encoded event to the buffer.
\<close>

definition log_dynval ::
  "encoder \<Rightarrow> DynValBuffer \<Rightarrow> DynValEntryType \<Rightarrow> LogOp \<Rightarrow> 64 word \<Rightarrow> error + DynValBuffer" where
  "log_dynval enc dynval_buf type op dynval =
     write_dynval_buffer dynval_buf
       (encode enc \<lparr>entryKind = type, operation = op, payload = dynval\<rparr>)"

text \<open>
  Modelled from the spec: \<open>log_exception\<close> is not among the sources. The spec's
  exception/fault recorder emits one distinguished sentinel event into the buffer.
\<close>

definition log_exception :: "encoder \<Rightarrow> DynValBuffer \<Rightarrow> error + DynValBuffer" where
  "log_exception enc dynval_buf =
     write_dynval_buffer dynval_buf (encode enc (exception_entry enc))"

subsection \<open>The plugin state\<close>

text \<open>
  Modelled from the spec: \<open>TranslationBlock\<close> is not declared in the sources. The
  spec's execution unit is a unit of code with a stable name.
\<close>

record TranslationBlock =
  func_name :: string

text \<open>
  Modelled from the spec: \<open>tcg_llvm_get_func_name\<close> is not among the sources; it gives
  the name under which the unit is recorded in the ledger.
\<close>

definition tcg_llvm_get_func_name :: "TranslationBlock \<Rightarrow> string" where
  "tcg_llvm_get_func_name tb = func_name tb"

record plugin =
  dynval_buffer :: DynValBuffer
  memlog :: "byte FILE"
  funclog :: "char FILE"
  infd :: "32 word"
  outfd :: "32 word"

section \<open>The block hooks\<close>

definition before_block_exec :: "TranslationBlock \<Rightarrow> plugin \<Rightarrow> error + plugin" where
  "before_block_exec tb s =
     (case fprintf (funclog s) (tcg_llvm_get_func_name tb @ [newline]) of
        Inl e \<Rightarrow> Inl e
      | Inr fl \<Rightarrow>
          (case (if cur_size (dynval_buffer s) > 0
                 then fwrite (start (dynval_buffer s)) (cur_size (dynval_buffer s)) (memlog s)
                 else Inr (memlog s)) of
             Inl e \<Rightarrow> Inl e
           | Inr ml \<Rightarrow>
               Inr (s\<lparr>funclog := fl, memlog := ml,
                      dynval_buffer := clear_dynval_buffer (dynval_buffer s)\<rparr>)))"

definition after_block_exec ::
  "TranslationBlock \<Rightarrow> TranslationBlock \<Rightarrow> plugin \<Rightarrow> error + plugin" where
  "after_block_exec tb next_tb s =
     (if memlog s = Null then Inl AssertionFailure
      else
        (case fwrite (start (dynval_buffer s)) (cur_size (dynval_buffer s)) (memlog s) of
           Inl e \<Rightarrow> Inl e
         | Inr ml \<Rightarrow>
             Inr (s\<lparr>memlog := ml,
                    dynval_buffer := clear_dynval_buffer (dynval_buffer s)\<rparr>)))"

definition cb_cpu_restore_state :: "encoder \<Rightarrow> TranslationBlock \<Rightarrow> plugin \<Rightarrow> error + plugin" where
  "cb_cpu_restore_state enc tb s =
     (case log_exception enc (dynval_buffer s) of
        Inl e \<Rightarrow> Inl e
      | Inr b \<Rightarrow> Inr (s\<lparr>dynval_buffer := b\<rparr>))"

text \<open>
  Modelled from the spec: \<open>close_memlog\<close> is not among the sources; at teardown the
  value log stream is closed.
\<close>

definition close_memlog :: "plugin \<Rightarrow> error + plugin" where
  "close_memlog s =
     (case fclose (memlog s) of Inl e \<Rightarrow> Inl e | Inr ml \<Rightarrow> Inr (s\<lparr>memlog := ml\<rparr>))"

text \<open>
  Teardown. Writing the bitcode module and unregistering the pass touch neither the
  buffer nor the two streams and are left out.
\<close>

definition uninit_plugin :: "plugin \<Rightarrow> error + plugin" where
  "uninit_plugin s =
     (case (if cur_size (dynval_buffer s) > 0
            then fwrite (start (dynval_buffer s)) (cur_size (dynval_buffer s)) (memlog s)
            else Inr (memlog s)) of
        Inl e \<Rightarrow> Inl e
      | Inr ml \<Rightarrow>
          (case fclose (funclog s) of
             Inl e \<Rightarrow> Inl e
           | Inr fl \<Rightarrow> close_memlog (s\<lparr>memlog := ml, funclog := fl\<rparr>)))"

section \<open>Running the hooks\<close>

text \<open>
  What the host and the instrumented code do to the tracing core: the three block
  hooks, a call of \<open>log_dynval\<close> on the plugin's buffer from instrumented code, and
  teardown. A run stops at the first crash.
\<close>

datatype signal =
    BeforeBlock TranslationBlock
  | LogDynval DynValEntryType LogOp "64 word"
  | AfterBlock TranslationBlock TranslationBlock
  | RestoreState TranslationBlock
  | Uninit

fun step :: "encoder \<Rightarrow> signal \<Rightarrow> plugin \<Rightarrow> error + plugin" where
  "step enc (BeforeBlock tb) s = before_block_exec tb s"
| "step enc (LogDynval type op dynval) s =
     (case log_dynval enc (dynval_buffer s) type op dynval of
        Inl e \<Rightarrow> Inl e
      | Inr b \<Rightarrow> Inr (s\<lparr>dynval_buffer := b\<rparr>))"
| "step enc (AfterBlock tb next_tb) s = after_block_exec tb next_tb s"
| "step enc (RestoreState tb) s = cb_cpu_restore_state enc tb s"
| "step enc Uninit s = uninit_plugin s"

fun run :: "encoder \<Rightarrow> signal list \<Rightarrow> plugin \<Rightarrow> error + plugin" where
  "run enc [] s = Inr s"
| "run enc (x # xs) s =
     (case step enc x s of Inl e \<Rightarrow> Inl e | Inr s' \<Rightarrow> run enc xs s')"

definition record_event :: "LoggedEvent \<Rightarrow> signal" where
  "record_event e = LogDynval (entryKind e) (operation e) (payload e)"

section \<open>The user-mode syscall hooks\<close>

text \<open>
  \<open>abi_long\<close> is the guest's signed long, of a width \<open>'a\<close> that depends on the target;
  \<open>int\<close> is 32 bits wide and host pointers and \<open>long\<close> are 64 bits wide.
  The host's access mode flags are those of Linux \<open>fcntl.h\<close>.
\<close>

definition O_RDONLY :: "32 word" where "O_RDONLY = 0"
definition O_WRONLY :: "32 word" where "O_WRONLY = 1"
definition O_RDWR :: "32 word" where "O_RDWR = 2"

text \<open>
  C strings are character lists without their terminator. Of the result of
  \<open>strncmp\<close> only the sign is defined; characters compare as unsigned bytes.
\<close>

fun strncmp :: "string \<Rightarrow> string \<Rightarrow> nat \<Rightarrow> int" where
  "strncmp s1 s2 0 = 0"
| "strncmp [] [] (Suc n) = 0"
| "strncmp [] (y # ys) (Suc n) = - 1"
| "strncmp (x # xs) [] (Suc n) = 1"
| "strncmp (x # xs) (y # ys) (Suc n) =
     (if x = y then strncmp xs ys n
      else if (of_char x :: nat) < of_char y then - 1 else 1)"

text \<open>\<open>strstr\<close>: the rest of the haystack from the first occurrence of the needle, if any.\<close>

fun strstr :: "string \<Rightarrow> string \<Rightarrow> string option" where
  "strstr [] needle = (if needle = [] then Some [] else None)"
| "strstr (h # hs) needle =
     (if prefix needle (h # hs) then Some (h # hs) else strstr hs needle)"

text \<open>\<open>printf\<close>'s \<open>%ld\<close>: a 64-bit argument read as a signed long, in decimal.\<close>

fun decimal :: "nat \<Rightarrow> string" where
  "decimal n =
     (if n < 10 then [''0123456789'' ! n]
      else decimal (n div 10) @ [''0123456789'' ! (n mod 10)])"

declare decimal.simps [simp del]

definition ld :: "64 word \<Rightarrow> string" where
  "ld w = (if sint w < 0 then CHR ''-'' # decimal (nat (- sint w)) else decimal (nat (sint w)))"

text \<open>
  \<open>fcntl_flags_tbl\<close> stands for \<open>target_to_host_bitmask(_, fcntl_flags_tbl)\<close>, whose
  argument is an \<open>unsigned int\<close>, and \<open>path p\<close> for \<open>path((const char * )p)\<close>, the host
  path of the name at address \<open>p\<close>: neither \<open>target_to_host_bitmask\<close>, the table nor
  \<open>path\<close> is among the sources.
\<close>

definition user_open ::
  "(32 word \<Rightarrow> 32 word) \<Rightarrow> (64 word \<Rightarrow> string) \<Rightarrow> 'a::len word \<Rightarrow> 64 word \<Rightarrow> 'a word
     \<Rightarrow> plugin \<Rightarrow> plugin" where
  "user_open fcntl_flags_tbl path ret p flagarg s =
     (let file = path p;
          flags = fcntl_flags_tbl (ucast flagarg)
      in
        if 0 <s ret then
          if strncmp file ''/etc'' 4 \<noteq> 0
             \<and> strncmp file ''/lib'' 4 \<noteq> 0
             \<and> strncmp file ''/proc'' 5 \<noteq> 0
             \<and> strncmp file ''/dev'' 4 \<noteq> 0
             \<and> strncmp file ''/usr'' 4 \<noteq> 0
             \<and> strstr file ''openssl.cnf'' = None
             \<and> strstr file ''xpdfrc'' = None
          then
            (let s1 = (if flags AND (O_RDONLY OR O_WRONLY) = O_RDONLY
                       then s\<lparr>infd := scast ret\<rparr> else s)
             in if flags AND O_WRONLY \<noteq> 0 then s1\<lparr>outfd := scast ret\<rparr> else s1)
          else s
        else s)"

definition user_creat :: "'a::len word \<Rightarrow> 64 word \<Rightarrow> plugin \<Rightarrow> plugin" where
  "user_creat ret p s = (if 0 <s ret then s\<lparr>outfd := scast ret\<rparr> else s)"

definition user_read :: "'a::len word \<Rightarrow> 'a word \<Rightarrow> 64 word \<Rightarrow> plugin \<Rightarrow> error + plugin" where
  "user_read ret fd p s =
     (if 0 <s ret \<and> fd = scast (infd s) then
        (case fprintf (funclog s)
                (''taint,read,'' @ ld p @ '','' @ ld (scast ret) @ [newline]) of
           Inl e \<Rightarrow> Inl e
         | Inr fl \<Rightarrow> Inr (s\<lparr>funclog := fl\<rparr>))
      else Inr s)"

definition user_write :: "'a::len word \<Rightarrow> 'a word \<Rightarrow> 64 word \<Rightarrow> plugin \<Rightarrow> error + plugin" where
  "user_write ret fd p s =
     (if 0 <s ret \<and> fd = scast (outfd s) then
        (case fprintf (funclog s)
                (''taint,write,'' @ ld p @ '','' @ ld (scast ret) @ [newline]) of
           Inl e \<Rightarrow> Inl e
         | Inr fl \<Rightarrow> Inr (s\<lparr>funclog := fl\<rparr>))
      else Inr s)"

text \<open>
  The syscall number, read against the target's \<open>TARGET_NR_*\<close> constants (not among
  the sources; the labels of a \<open>switch\<close> are distinct). The arguments \<open>arg4\<close> to
  \<open>arg8\<close> are not used.
\<close>

datatype syscall_nr =
    TARGET_NR_read
  | TARGET_NR_write
  | TARGET_NR_open
  | TARGET_NR_openat
  | TARGET_NR_creat
  | TARGET_NR_other int

fun user_after_syscall ::
  "(32 word \<Rightarrow> 32 word) \<Rightarrow> (64 word \<Rightarrow> string) \<Rightarrow> syscall_nr
     \<Rightarrow> 'a::len word \<Rightarrow> 'a word \<Rightarrow> 'a word \<Rightarrow> 64 word \<Rightarrow> 'a word
     \<Rightarrow> plugin \<Rightarrow> error + plugin" where
  "user_after_syscall fcntl_flags_tbl path TARGET_NR_read arg1 arg2 arg3 p ret s =
     user_read ret arg1 p s"
| "user_after_syscall fcntl_flags_tbl path TARGET_NR_write arg1 arg2 arg3 p ret s =
     user_write ret arg1 p s"
| "user_after_syscall fcntl_flags_tbl path TARGET_NR_open arg1 arg2 arg3 p ret s =
     Inr (user_open fcntl_flags_tbl path ret p arg2 s)"
| "user_after_syscall fcntl_flags_tbl path TARGET_NR_openat arg1 arg2 arg3 p ret s =
     Inr (user_open fcntl_flags_tbl path ret p arg3 s)"
| "user_after_syscall fcntl_flags_tbl path TARGET_NR_creat arg1 arg2 arg3 p ret s =
     Inr (user_creat ret p s)"
| "user_after_syscall fcntl_flags_tbl path (TARGET_NR_other n) arg1 arg2 arg3 p ret s =
     Inr s"

section \<open>Notions used to state the properties\<close>

text \<open>The buffered bytes: the first \<open>cur_size\<close> bytes from the buffer base.\<close>

definition pending :: "DynValBuffer \<Rightarrow> byte list" where
  "pending b = take (cur_size b) (start b)"

text \<open>The line of the ledger that names a unit, and the units a run executes, in order.\<close>

definition ledger_line :: "TranslationBlock \<Rightarrow> string" where
  "ledger_line tb = func_name tb @ [newline]"

fun executed :: "signal list \<Rightarrow> TranslationBlock list" where
  "executed [] = []"
| "executed (BeforeBlock tb # xs) = tb # executed xs"
| "executed (x # xs) = executed xs"

text \<open>
  The hook protocol of a complete run: every unit starts with the before-unit
  signal, records events, and ends with exactly one of the after-unit and the fault
  signal; teardown comes last, between units. The flag tells whether a unit is
  executing.
\<close>

fun protocol :: "bool \<Rightarrow> signal list \<Rightarrow> bool" where
  "protocol active [] = False"
| "protocol False (BeforeBlock tb # xs) = protocol True xs"
| "protocol True (LogDynval type op dynval # xs) = protocol True xs"
| "protocol True (AfterBlock tb next_tb # xs) = protocol False xs"
| "protocol True (RestoreState tb # xs) = protocol False xs"
| "protocol False (Uninit # xs) = (xs = [])"
| "protocol active xs = False"

text \<open>The units of a run that completed normally, and those that a fault interrupted.\<close>

fun completed :: "signal list \<Rightarrow> nat" where
  "completed [] = 0"
| "completed (AfterBlock tb next_tb # xs) = Suc (completed xs)"
| "completed (x # xs) = completed xs"

fun faulted :: "signal list \<Rightarrow> nat" where
  "faulted [] = 0"
| "faulted (RestoreState tb # xs) = Suc (faulted xs)"
| "faulted (x # xs) = faulted xs"

text \<open>
  The units named in the ledger whose events are not in the value log yet: the unit
  that is executing, or a finished unit whose events are still buffered.
\<close>

definition owed :: "bool \<Rightarrow> plugin \<Rightarrow> nat" where
  "owed active s = (if active \<or> 0 < cur_size (dynval_buffer s) then 1 else 0)"

text \<open>
  The exclusion list of \<open>user_open\<close> in the words of its comment: paths under the
  system and configuration prefixes, and the two noisy files wherever they are.
\<close>

definition excluded :: "string \<Rightarrow> bool" where
  "excluded file \<longleftrightarrow>
     prefix ''/etc'' file \<or> prefix ''/lib'' file \<or> prefix ''/proc'' file
     \<or> prefix ''/dev'' file \<or> prefix ''/usr'' file
     \<or> sublist ''openssl.cnf'' file \<or> sublist ''xpdfrc'' file"

definition O_ACCMODE :: "32 word" where "O_ACCMODE = 3"

text \<open>Reading a decimal numeral back.\<close>

definition digit_value :: "char \<Rightarrow> nat" where
  "digit_value c = of_char c - 48"

definition read_decimal :: "string \<Rightarrow> nat" where
  "read_decimal cs = foldl (\<lambda>a c. 10 * a + digit_value c) 0 cs"

text \<open>
  The state after a successful \<open>init_plugin\<close>: both streams freshly opened for
  writing, the descriptors at their initial value -1 and an empty buffer of the given
  capacity.
\<close>

definition started :: "nat \<Rightarrow> plugin" where
  "started cap =
     \<lparr>dynval_buffer = \<lparr>start = replicate cap 0, cur_size = 0\<rparr>,
      memlog = Open [], funclog = Open [], infd = - 1, outfd = - 1\<rparr>"

subsection \<open>Sample inputs\<close>

text \<open>
  A three-byte layout (kind, operation, low byte of the payload), two units and two
  paths, on which the theorems below are exercised.
\<close>

fun kind_code :: "DynValEntryType \<Rightarrow> byte" where
  "kind_code Address = 0"
| "kind_code Value = 1"
| "kind_code BranchTarget = 2"
| "kind_code ExceptionMarker = 3"
| "kind_code (OtherEntry n) = 4"

fun op_code :: "LogOp \<Rightarrow> byte" where
  "op_code Load = 0"
| "op_code Store = 1"
| "op_code CompareAndFork = 2"
| "op_code (OtherOp n) = 3"

definition sample_encode :: "LoggedEvent \<Rightarrow> byte list" where
  "sample_encode e = [kind_code (entryKind e), op_code (operation e), ucast (payload e)]"

definition sample_encoder :: encoder where
  "sample_encoder =
     \<lparr>encode = sample_encode,
      exception_entry = \<lparr>entryKind = ExceptionMarker, operation = OtherOp 0, payload = 0\<rparr>\<rparr>"

definition load_event :: LoggedEvent where
  "load_event = \<lparr>entryKind = Address, operation = Load, payload = 16\<rparr>"

definition store_event :: LoggedEvent where
  "store_event = \<lparr>entryKind = Address, operation = Store, payload = 32\<rparr>"

definition unit_A :: TranslationBlock where
  "unit_A = \<lparr>func_name = ''A''\<rparr>"

definition unit_B :: TranslationBlock where
  "unit_B = \<lparr>func_name = ''B''\<rparr>"

definition etc_passwd :: "64 word \<Rightarrow> string" where
  "etc_passwd p = ''/etc/passwd''"

definition tmp_data :: "64 word \<Rightarrow> string" where
  "tmp_data p = ''/tmp/data''"

definition host_flags :: "32 word \<Rightarrow> 32 word" where
  "host_flags x = x"

text \<open>
  A state in which two events are buffered; a run in which unit \<open>A\<close> executes
  twice, with the state it ends in; a complete run in which a fault interrupts unit
  \<open>B\<close>, with the state it ends in; a state in which descriptor 3 is the taint source.
\<close>

definition pending_state :: plugin where
  "pending_state =
     \<lparr>dynval_buffer = \<lparr>start = [0, 0, 16, 0, 1, 32, 0, 0], cur_size = 6\<rparr>,
      memlog = Open [], funclog = Open [''A'' @ [newline]], infd = - 1, outfd = - 1\<rparr>"

definition loop_run :: "signal list" where
  "loop_run =
     [BeforeBlock unit_A, record_event load_event, AfterBlock unit_A unit_A,
      BeforeBlock unit_A, AfterBlock unit_A unit_B]"

definition loop_state :: plugin where
  "loop_state =
     \<lparr>dynval_buffer = \<lparr>start = [0, 0, 16], cur_size = 0\<rparr>,
      memlog = Open [[0, 0, 16], []],
      funclog = Open [''A'' @ [newline], ''A'' @ [newline]], infd = - 1, outfd = - 1\<rparr>"

definition fault_run :: "signal list" where
  "fault_run =
     [BeforeBlock unit_A, record_event load_event, AfterBlock unit_A unit_B,
      BeforeBlock unit_B, record_event store_event, RestoreState unit_B,
      BeforeBlock unit_A, AfterBlock unit_A unit_A,
      Uninit]"

definition fault_run_state :: plugin where
  "fault_run_state =
     \<lparr>dynval_buffer = \<lparr>start = [0, 1, 32, 3, 3, 0], cur_size = 0\<rparr>,
      memlog = Closed [[0, 0, 16], [0, 1, 32, 3, 3, 0], []],
      funclog = Closed [''A'' @ [newline], ''B'' @ [newline], ''A'' @ [newline]],
      infd = - 1, outfd = - 1\<rparr>"

definition source_open :: plugin where
  "source_open =
     \<lparr>dynval_buffer = \<lparr>start = [], cur_size = 0\<rparr>,
      memlog = Open [], funclog = Open [], infd = 3, outfd = - 1\<rparr>"

section \<open>The buffer under recorded events\<close>

lemmas hook_defs =
  before_block_exec_def after_block_exec_def cb_cpu_restore_state_def uninit_plugin_def
  close_memlog_def log_exception_def log_dynval_def write_dynval_buffer_def
  clear_dynval_buffer_def fprintf_def fwrite_def fclose_def tcg_llvm_get_func_name_def
  record_event_def

lemmas sample_defs =
  started_def sample_encoder_def sample_encode_def load_event_def store_event_def
  unit_A_def unit_B_def

lemma write_dynval_buffer_Inr:
  assumes "write_dynval_buffer b bs = Inr b'" "cur_size b \<le> length (start b)"
  shows "cur_size b' = cur_size b + length bs"
    and "length (start b') = length (start b)"
    and "pending b' = pending b @ bs"
  using assms by (auto simp: write_dynval_buffer_def pending_def split: if_splits)

lemma write_dynval_buffer_fits:
  "cur_size b + length bs \<le> length (start b) \<Longrightarrow> \<exists>b'. write_dynval_buffer b bs = Inr b'"
  by (simp add: write_dynval_buffer_def)

lemma pending_empty: "cur_size b = 0 \<Longrightarrow> pending b = []"
  by (simp add: pending_def)

lemma run_append:
  "run enc (xs @ ys) s = (case run enc xs s of Inl e \<Rightarrow> Inl e | Inr s' \<Rightarrow> run enc ys s')"
  by (induction xs arbitrary: s) (auto split: sum.splits)

lemma LoggedEvent_fields:
  "\<lparr>entryKind = entryKind e, operation = operation e, payload = payload e\<rparr> = (e::LoggedEvent)"
  by simp

lemma step_record_event:
  "step enc (record_event e) s =
     (case write_dynval_buffer (dynval_buffer s) (encode enc e) of
        Inl err \<Rightarrow> Inl err
      | Inr b \<Rightarrow> Inr (s\<lparr>dynval_buffer := b\<rparr>))"
  by (simp add: record_event_def log_dynval_def LoggedEvent_fields)

lemma run_records_Inr:
  "run enc (map record_event es) s = Inr s' \<Longrightarrow>
   cur_size (dynval_buffer s) \<le> length (start (dynval_buffer s)) \<Longrightarrow>
   memlog s' = memlog s \<and> funclog s' = funclog s \<and> infd s' = infd s \<and> outfd s' = outfd s
   \<and> length (start (dynval_buffer s')) = length (start (dynval_buffer s))
   \<and> cur_size (dynval_buffer s') = cur_size (dynval_buffer s) + length (concat (map (encode enc) es))
   \<and> pending (dynval_buffer s') = pending (dynval_buffer s) @ concat (map (encode enc) es)"
proof (induction es arbitrary: s)
  case Nil
  then show ?case by simp
next
  case (Cons e es)
  from Cons.prems(1) obtain b where
    w: "write_dynval_buffer (dynval_buffer s) (encode enc e) = Inr b"
    and r: "run enc (map record_event es) (s\<lparr>dynval_buffer := b\<rparr>) = Inr s'"
    by (auto simp: step_record_event split: sum.splits)
  note wb = write_dynval_buffer_Inr [OF w Cons.prems(2)]
  have le: "cur_size (dynval_buffer (s\<lparr>dynval_buffer := b\<rparr>))
            \<le> length (start (dynval_buffer (s\<lparr>dynval_buffer := b\<rparr>)))"
    using w Cons.prems(2) by (auto simp: write_dynval_buffer_def split: if_splits)
  from Cons.IH [OF r le] show ?case
    using wb by simp
qed

lemma run_records_fits:
  "cur_size (dynval_buffer s) + length (concat (map (encode enc) es)) \<le> length (start (dynval_buffer s))
   \<Longrightarrow> \<exists>s'. run enc (map record_event es) s = Inr s'"
proof (induction es arbitrary: s)
  case Nil
  then show ?case by simp
next
  case (Cons e es)
  have fit: "cur_size (dynval_buffer s) + length (encode enc e) \<le> length (start (dynval_buffer s))"
    using Cons.prems by simp
  then obtain b where w: "write_dynval_buffer (dynval_buffer s) (encode enc e) = Inr b"
    using write_dynval_buffer_fits by blast
  have "cur_size (dynval_buffer s) \<le> length (start (dynval_buffer s))" using fit by simp
  note wb = write_dynval_buffer_Inr [OF w this]
  have "\<exists>s'. run enc (map record_event es) (s\<lparr>dynval_buffer := b\<rparr>) = Inr s'"
    by (rule Cons.IH) (use wb Cons.prems in simp)
  then show ?case using w by (simp add: step_record_event)
qed

lemma sample_encode_length [simp]: "length (sample_encode e) = 3"
  by (simp add: sample_encode_def)

text \<open>The events of a unit that starts on an empty buffer and fits the capacity.\<close>

lemma run_unit_events:
  assumes "cur_size (dynval_buffer s) = 0"
    and "length (concat (map (encode enc) es)) \<le> capacity (dynval_buffer s)"
  shows "\<exists>s1. run enc (map record_event es) s = Inr s1
           \<and> memlog s1 = memlog s \<and> funclog s1 = funclog s
           \<and> capacity (dynval_buffer s1) = capacity (dynval_buffer s)
           \<and> cur_size (dynval_buffer s1) = length (concat (map (encode enc) es))
           \<and> pending (dynval_buffer s1) = concat (map (encode enc) es)"
proof -
  from assms obtain s1 where r: "run enc (map record_event es) s = Inr s1"
    using run_records_fits [of s enc es] by (auto simp: capacity_def)
  have "cur_size (dynval_buffer s) \<le> length (start (dynval_buffer s))"
    using assms(1) by simp
  from run_records_Inr [OF r this] show ?thesis
    using r assms(1) by (simp add: capacity_def pending_empty)
qed

section \<open>Flushing at the end of a unit\<close>

text \<open>
  C1. A unit starts on an empty buffer and records the events \<open>es\<close>, which fit the
  capacity. Then the first \<open>cur_size\<close> bytes from the buffer base are the
  concatenation of the events' encodings in call order, and \<open>after_block_exec\<close>
  writes exactly these bytes to the value log, in one write, and sets the cursor to 0.
\<close>

theorem after_block_exec_flushes_unit:
  assumes "memlog s = Open ml"
    and "cur_size (dynval_buffer s) = 0"
    and "length (concat (map (encode enc) es)) \<le> capacity (dynval_buffer s)"
  shows "\<exists>s1. run enc (map record_event es) s = Inr s1
           \<and> take (cur_size (dynval_buffer s1)) (start (dynval_buffer s1))
               = concat (map (encode enc) es)
           \<and> after_block_exec tb next_tb s1 =
               Inr (s1\<lparr>memlog := Open (ml @ [take (cur_size (dynval_buffer s1))
                                                (start (dynval_buffer s1))]),
                      dynval_buffer := (dynval_buffer s1)\<lparr>cur_size := 0\<rparr>\<rparr>)"
proof -
  from run_unit_events [OF assms(2,3)] obtain s1 where
    r: "run enc (map record_event es) s = Inr s1"
    and m: "memlog s1 = memlog s"
    and c: "capacity (dynval_buffer s1) = capacity (dynval_buffer s)"
    and n: "cur_size (dynval_buffer s1) = length (concat (map (encode enc) es))"
    and p: "pending (dynval_buffer s1) = concat (map (encode enc) es)"
    by blast
  have "cur_size (dynval_buffer s1) \<le> length (start (dynval_buffer s1))"
    using n c assms(3) by (simp add: capacity_def)
  then have "after_block_exec tb next_tb s1 =
      Inr (s1\<lparr>memlog := Open (ml @ [take (cur_size (dynval_buffer s1))
                                       (start (dynval_buffer s1))]),
             dynval_buffer := (dynval_buffer s1)\<lparr>cur_size := 0\<rparr>\<rparr>)"
    using m assms(1)
    by (simp add: after_block_exec_def fwrite_def clear_dynval_buffer_def)
  with r p show ?thesis
    unfolding pending_def by blast
qed

theorem after_block_exec_flushes_unit_witness:
  "memlog (started 8) = Open []
   \<and> cur_size (dynval_buffer (started 8)) = 0
   \<and> length (concat (map (encode sample_encoder) [load_event, store_event]))
       \<le> capacity (dynval_buffer (started 8))
   \<and> (\<exists>s1. run sample_encoder (map record_event [load_event, store_event]) (started 8) = Inr s1
           \<and> take (cur_size (dynval_buffer s1)) (start (dynval_buffer s1))
               = concat (map (encode sample_encoder) [load_event, store_event])
           \<and> after_block_exec unit_A unit_B s1 =
               Inr (s1\<lparr>memlog := Open ([] @ [take (cur_size (dynval_buffer s1))
                                                (start (dynval_buffer s1))]),
                      dynval_buffer := (dynval_buffer s1)\<lparr>cur_size := 0\<rparr>\<rparr>))"
proof -
  have h1: "memlog (started 8) = Open []" by (simp add: started_def)
  have h2: "cur_size (dynval_buffer (started 8)) = 0" by (simp add: started_def)
  have h3: "length (concat (map (encode sample_encoder) [load_event, store_event]))
              \<le> capacity (dynval_buffer (started 8))"
    by (simp add: started_def capacity_def sample_encoder_def)
  show ?thesis
    by (intro conjI h1 h2 h3 after_block_exec_flushes_unit [OF h1 h2 h3])
qed

section \<open>What each hook does to the streams and the buffer\<close>

lemma before_block_exec_Inr:
  assumes "before_block_exec tb s = Inr s'"
  shows "writes (funclog s') = writes (funclog s) @ [ledger_line tb]"
    and "writes (memlog s') = writes (memlog s)
           @ (if 0 < cur_size (dynval_buffer s) then [pending (dynval_buffer s)] else [])"
    and "cur_size (dynval_buffer s') = 0"
    and "start (dynval_buffer s') = start (dynval_buffer s)"
  using assms
  by (auto simp: before_block_exec_def fprintf_def fwrite_def clear_dynval_buffer_def
      tcg_llvm_get_func_name_def ledger_line_def pending_def
      split: sum.splits if_splits FILE.splits)

lemma after_block_exec_Inr:
  assumes "after_block_exec tb next_tb s = Inr s'"
  shows "funclog s' = funclog s"
    and "writes (memlog s') = writes (memlog s) @ [pending (dynval_buffer s)]"
    and "cur_size (dynval_buffer s') = 0"
    and "start (dynval_buffer s') = start (dynval_buffer s)"
  using assms
  by (auto simp: after_block_exec_def fwrite_def clear_dynval_buffer_def pending_def
      split: sum.splits if_splits FILE.splits)

lemma cb_cpu_restore_state_Inr:
  assumes "cb_cpu_restore_state enc tb s = Inr s'"
  shows "funclog s' = funclog s"
    and "memlog s' = memlog s"
    and "cur_size (dynval_buffer s') =
           cur_size (dynval_buffer s) + length (encode enc (exception_entry enc))"
  using assms
  by (auto simp: cb_cpu_restore_state_def log_exception_def write_dynval_buffer_def
      split: sum.splits if_splits)

lemma log_dynval_step_Inr:
  assumes "step enc (LogDynval type op dynval) s = Inr s'"
  shows "funclog s' = funclog s" and "memlog s' = memlog s"
  using assms by (auto split: sum.splits)

lemma uninit_plugin_Inr:
  assumes "uninit_plugin s = Inr s'"
  shows "writes (funclog s') = writes (funclog s)"
    and "writes (memlog s') = writes (memlog s)
           @ (if 0 < cur_size (dynval_buffer s) then [pending (dynval_buffer s)] else [])"
    and "dynval_buffer s' = dynval_buffer s"
  using assms
  by (auto simp: uninit_plugin_def fwrite_def fclose_def close_memlog_def pending_def
      split: sum.splits if_splits FILE.splits)

lemma uninit_plugin_closes_funclog:
  assumes "uninit_plugin s = Inr s'"
  shows "funclog s = Open (writes (funclog s))" and "funclog s' = Closed (writes (funclog s))"
  using assms
  by (auto simp: uninit_plugin_def fclose_def close_memlog_def
      split: sum.splits if_splits FILE.splits)

lemma before_block_exec_Open:
  assumes "funclog s = Open fl" "memlog s = Open ml"
    and "cur_size (dynval_buffer s) \<le> capacity (dynval_buffer s)"
  shows "before_block_exec tb s =
     Inr (s\<lparr>funclog := Open (fl @ [ledger_line tb]),
            memlog := Open (if 0 < cur_size (dynval_buffer s)
                            then ml @ [pending (dynval_buffer s)] else ml),
            dynval_buffer := (dynval_buffer s)\<lparr>cur_size := 0\<rparr>\<rparr>)"
  using assms
  by (simp add: before_block_exec_def fprintf_def fwrite_def clear_dynval_buffer_def
      tcg_llvm_get_func_name_def capacity_def ledger_line_def pending_def)

lemma uninit_plugin_Open:
  assumes "funclog s = Open fl" "memlog s = Open ml"
    and "cur_size (dynval_buffer s) \<le> capacity (dynval_buffer s)"
  shows "uninit_plugin s =
     Inr (s\<lparr>memlog := Closed (if 0 < cur_size (dynval_buffer s)
                              then ml @ [pending (dynval_buffer s)] else ml),
            funclog := Closed fl\<rparr>)"
  using assms
  by (simp add: uninit_plugin_def fwrite_def fclose_def close_memlog_def capacity_def pending_def)

section \<open>The before-unit hook\<close>

text \<open>
  C3. With the ledger open, \<open>before_block_exec\<close> appends the line naming the unit to
  the ledger. If the buffer is not empty (and the value log is open), it also writes
  the buffered bytes to the value log and sets the cursor to 0. If the buffer is
  empty, the state changes in nothing but the ledger.
\<close>

theorem before_block_exec_flush_and_ledger:
  assumes "funclog s = Open fl"
  shows "(0 < cur_size (dynval_buffer s) \<longrightarrow> memlog s = Open ml \<longrightarrow>
            cur_size (dynval_buffer s) \<le> capacity (dynval_buffer s) \<longrightarrow>
            before_block_exec tb s =
              Inr (s\<lparr>funclog := Open (fl @ [func_name tb @ [newline]]),
                     memlog := Open (ml @ [take (cur_size (dynval_buffer s))
                                               (start (dynval_buffer s))]),
                     dynval_buffer := (dynval_buffer s)\<lparr>cur_size := 0\<rparr>\<rparr>))
       \<and> (cur_size (dynval_buffer s) = 0 \<longrightarrow>
            before_block_exec tb s =
              Inr (s\<lparr>funclog := Open (fl @ [func_name tb @ [newline]])\<rparr>))"
  using assms
  by (simp add: before_block_exec_def fprintf_def fwrite_def clear_dynval_buffer_def
      tcg_llvm_get_func_name_def capacity_def)

theorem before_block_exec_flush_and_ledger_witness:
  "before_block_exec unit_B pending_state =
     Inr (pending_state\<lparr>funclog := Open ([''A'' @ [newline]] @ [func_name unit_B @ [newline]]),
            memlog := Open ([] @ [take (cur_size (dynval_buffer pending_state))
                                       (start (dynval_buffer pending_state))]),
            dynval_buffer := (dynval_buffer pending_state)\<lparr>cur_size := 0\<rparr>\<rparr>)
   \<and> before_block_exec unit_A (started 8) =
       Inr ((started 8)\<lparr>funclog := Open ([] @ [func_name unit_A @ [newline]])\<rparr>)"
proof -
  have f1: "funclog pending_state = Open [''A'' @ [newline]]"
    and m1: "memlog pending_state = Open []"
    and c1: "0 < cur_size (dynval_buffer pending_state)"
    and b1: "cur_size (dynval_buffer pending_state) \<le> capacity (dynval_buffer pending_state)"
    by (simp_all add: pending_state_def capacity_def)
  have f2: "funclog (started 8) = Open []"
    and c2: "cur_size (dynval_buffer (started 8)) = 0"
    by (simp_all add: started_def)
  from before_block_exec_flush_and_ledger [OF f1, of "[]" unit_B] c1 m1 b1
  have "before_block_exec unit_B pending_state =
     Inr (pending_state\<lparr>funclog := Open ([''A'' @ [newline]] @ [func_name unit_B @ [newline]]),
            memlog := Open ([] @ [take (cur_size (dynval_buffer pending_state))
                                       (start (dynval_buffer pending_state))]),
            dynval_buffer := (dynval_buffer pending_state)\<lparr>cur_size := 0\<rparr>\<rparr>)"
    by blast
  moreover from before_block_exec_flush_and_ledger [OF f2, of "[]" unit_A] c2
  have "before_block_exec unit_A (started 8) =
       Inr ((started 8)\<lparr>funclog := Open ([] @ [func_name unit_A @ [newline]])\<rparr>)"
    by blast
  ultimately show ?thesis by blast
qed

text \<open>
  C9. Whenever \<open>before_block_exec\<close> returns, the cursor is 0.
\<close>

theorem before_block_exec_cursor_zero:
  "before_block_exec tb s = Inr s' \<Longrightarrow> cur_size (dynval_buffer s') = 0"
  by (auto simp: before_block_exec_def clear_dynval_buffer_def split: sum.splits if_splits)

theorem before_block_exec_cursor_zero_witness:
  "before_block_exec unit_B pending_state =
     Inr \<lparr>dynval_buffer = \<lparr>start = [0, 0, 16, 0, 1, 32, 0, 0], cur_size = 0\<rparr>,
          memlog = Open [[0, 0, 16, 0, 1, 32]],
          funclog = Open [''A'' @ [newline], ''B'' @ [newline]], infd = - 1, outfd = - 1\<rparr>
   \<and> cur_size (dynval_buffer
        \<lparr>dynval_buffer = \<lparr>start = [0, 0, 16, 0, 1, 32, 0, 0], cur_size = 0\<rparr>,
          memlog = Open [[0, 0, 16, 0, 1, 32]],
          funclog = Open [''A'' @ [newline], ''B'' @ [newline]], infd = - 1, outfd = - 1\<rparr>) = 0"
proof -
  have h: "before_block_exec unit_B pending_state =
     Inr \<lparr>dynval_buffer = \<lparr>start = [0, 0, 16, 0, 1, 32, 0, 0], cur_size = 0\<rparr>,
          memlog = Open [[0, 0, 16, 0, 1, 32]],
          funclog = Open [''A'' @ [newline], ''B'' @ [newline]], infd = - 1, outfd = - 1\<rparr>"
    by (simp add: before_block_exec_def fprintf_def fwrite_def clear_dynval_buffer_def
        tcg_llvm_get_func_name_def pending_state_def unit_B_def)
  from h before_block_exec_cursor_zero [OF h] show ?thesis by blast
qed

section \<open>Teardown\<close>

text \<open>
  C8. With both streams open, \<open>uninit_plugin\<close> writes the buffered bytes, if any, to
  the value log and then closes the ledger and the value log: the closed value log
  holds what it held before followed by the buffered bytes.
\<close>

theorem uninit_plugin_flushes_before_close:
  assumes "memlog s = Open ml" "funclog s = Open fl"
    and "cur_size (dynval_buffer s) \<le> capacity (dynval_buffer s)"
  shows "uninit_plugin s =
           Inr (s\<lparr>memlog := Closed (if 0 < cur_size (dynval_buffer s)
                      then ml @ [take (cur_size (dynval_buffer s)) (start (dynval_buffer s))]
                      else ml),
                  funclog := Closed fl\<rparr>)
         \<and> contents (Closed (if 0 < cur_size (dynval_buffer s)
                      then ml @ [take (cur_size (dynval_buffer s)) (start (dynval_buffer s))]
                      else ml))
             = contents (memlog s) @ take (cur_size (dynval_buffer s)) (start (dynval_buffer s))"
  using assms
  by (simp add: uninit_plugin_def fwrite_def fclose_def close_memlog_def capacity_def
      contents_def)

theorem uninit_plugin_flushes_before_close_witness:
  "memlog pending_state = Open [] \<and> funclog pending_state = Open [''A'' @ [newline]]
   \<and> cur_size (dynval_buffer pending_state) \<le> capacity (dynval_buffer pending_state)
   \<and> uninit_plugin pending_state =
       Inr (pending_state\<lparr>memlog := Closed [[0, 0, 16, 0, 1, 32]],
              funclog := Closed [''A'' @ [newline]]\<rparr>)
   \<and> contents (Closed [[0, 0, 16, 0, 1, 32 :: byte]]) = [0, 0, 16, 0, 1, 32]"
proof -
  have m: "memlog pending_state = Open []"
    and f: "funclog pending_state = Open [''A'' @ [newline]]"
    and b: "cur_size (dynval_buffer pending_state) \<le> capacity (dynval_buffer pending_state)"
    by (simp_all add: pending_state_def capacity_def)
  from uninit_plugin_flushes_before_close [OF m f b] m f b show ?thesis
    by (simp add: pending_state_def contents_def)
qed

section \<open>The ledger\<close>

lemma run_ledger:
  "run enc evs s = Inr s' \<Longrightarrow>
   writes (funclog s') = writes (funclog s) @ map ledger_line (executed evs)"
proof (induction evs arbitrary: s)
  case Nil
  then show ?case by simp
next
  case (Cons x xs)
  from Cons.prems obtain s1 where b: "step enc x s = Inr s1" and r: "run enc xs s1 = Inr s'"
    by (auto split: sum.splits)
  have "writes (funclog s1) = writes (funclog s) @ map ledger_line (executed [x])"
  proof (cases x)
    case (BeforeBlock tb)
    then show ?thesis using b before_block_exec_Inr(1) by simp
  next
    case (LogDynval t op v)
    then show ?thesis using log_dynval_step_Inr(1) b by simp
  next
    case (AfterBlock tb n)
    then show ?thesis using after_block_exec_Inr(1) b by simp
  next
    case (RestoreState tb)
    then show ?thesis using cb_cpu_restore_state_Inr(1) b by simp
  next
    case Uninit
    then show ?thesis using uninit_plugin_Inr(1) b by simp
  qed
  moreover have "executed (x # xs) = executed [x] @ executed xs"
    by (cases x) simp_all
  ultimately show ?case using Cons.IH [OF r] by simp
qed

text \<open>
  C5, amended. After any run the ledger stream has been given, after what it had
  before, exactly one line for every before-unit signal of the run, naming its unit,
  in the order of the signals. The stream is fully buffered and no hook flushes it:
  as long as less has been written to it than its buffer holds, nothing is in the
  ledger file; once teardown has closed the stream, the file holds all the lines.
\<close>

theorem ledger_one_line_per_execution:
  assumes "run enc evs s = Inr s1"
  shows "writes (funclog s1) = writes (funclog s) @ map ledger_line (executed evs)
       \<and> (funclog s1 = Open ws \<longrightarrow> length (concat ws) < bufsiz \<longrightarrow>
            (in_file bufsiz (funclog s1) bs \<longleftrightarrow> bs = []))
       \<and> (uninit_plugin s1 = Inr s2 \<longrightarrow>
            (in_file bufsiz (funclog s2) bs \<longleftrightarrow>
               bs = contents (funclog s) @ concat (map ledger_line (executed evs))))"
proof -
  note l = run_ledger [OF assms]
  have "funclog s1 = Open ws \<longrightarrow> length (concat ws) < bufsiz \<longrightarrow>
            (in_file bufsiz (funclog s1) bs \<longleftrightarrow> bs = [])"
    by auto
  moreover have "uninit_plugin s1 = Inr s2 \<longrightarrow>
            (in_file bufsiz (funclog s2) bs \<longleftrightarrow>
               bs = contents (funclog s) @ concat (map ledger_line (executed evs)))"
    using uninit_plugin_closes_funclog(2) [of s1 s2] l by (auto simp: contents_def)
  ultimately show ?thesis using l by blast
qed

lemma loop_run_result: "run sample_encoder loop_run (started 3) = Inr loop_state"
  by (simp add: loop_run_def loop_state_def hook_defs sample_defs)

theorem ledger_one_line_per_execution_witness:
  "run sample_encoder loop_run (started 3) = Inr loop_state
   \<and> writes (funclog loop_state) = [''A'' @ [newline], ''A'' @ [newline]]
   \<and> funclog loop_state = Open [''A'' @ [newline], ''A'' @ [newline]]
   \<and> length (concat [''A'' @ [newline], ''A'' @ [newline]]) < (4096 :: nat)
   \<and> in_file 4096 (funclog loop_state) []
   \<and> uninit_plugin loop_state =
       Inr (loop_state\<lparr>memlog := Closed [[0, 0, 16], []],
              funclog := Closed [''A'' @ [newline], ''A'' @ [newline]]\<rparr>)
   \<and> in_file 4096
        (funclog (loop_state\<lparr>memlog := Closed [[0, 0, 16], []],
              funclog := Closed [''A'' @ [newline], ''A'' @ [newline]]\<rparr>))
        (''A'' @ [newline] @ ''A'' @ [newline])"
proof -
  let ?ws = "[''A'' @ [newline], ''A'' @ [newline]]"
  let ?s2 = "loop_state\<lparr>memlog := Closed [[0, 0, 16], []], funclog := Closed ?ws\<rparr>"
  have r: "run sample_encoder loop_run (started 3) = Inr loop_state"
    by (rule loop_run_result)
  have f: "funclog loop_state = Open ?ws"
    by (simp add: loop_state_def)
  have n: "length (concat ?ws) < (4096 :: nat)"
    by simp
  have u: "uninit_plugin loop_state = Inr ?s2"
    by (simp add: loop_state_def hook_defs)
  have e: "executed loop_run = [unit_A, unit_A]"
    by (simp add: loop_run_def record_event_def)
  note t1 = ledger_one_line_per_execution [OF r, of ?ws 4096 "[]" ?s2]
  note t2 = ledger_one_line_per_execution
              [OF r, of ?ws 4096 "''A'' @ [newline] @ ''A'' @ [newline]" ?s2]
  have a: "writes (funclog loop_state) = ?ws"
    using t1 by (simp add: started_def e ledger_line_def unit_A_def)
  have b: "in_file 4096 (funclog loop_state) []"
    using t1 f n by blast
  have "in_file 4096 (funclog ?s2) (''A'' @ [newline] @ ''A'' @ [newline])
          \<longleftrightarrow> ''A'' @ [newline] @ ''A'' @ [newline]
            = contents (funclog (started 3)) @ concat (map ledger_line (executed loop_run))"
    using t2 u by blast
  then have c: "in_file 4096 (funclog ?s2) (''A'' @ [newline] @ ''A'' @ [newline])"
    by (simp add: started_def contents_def e ledger_line_def unit_A_def)
  from r a f n b u c show ?thesis by blast
qed

text \<open>
  The claim as stated fails: when \<open>before_block_exec\<close> returns, the line of the unit
  has been written to the stream and is not in the ledger file.
\<close>

theorem ledger_line_buffered_counterexample:
  "before_block_exec unit_A (started 8) =
     Inr ((started 8)\<lparr>funclog := Open [''A'' @ [newline]]\<rparr>)
   \<and> in_file 4096 (Open [''A'' @ [newline]]) []
   \<and> \<not> in_file 4096 (Open [''A'' @ [newline]]) (''A'' @ [newline])"
  by (simp add: hook_defs sample_defs)

section \<open>Ledger entries and flushes\<close>

lemma protocol_balance:
  "protocol active evs \<Longrightarrow> run enc evs s = Inr s' \<Longrightarrow>
   encode enc (exception_entry enc) \<noteq> [] \<Longrightarrow>
   length (writes (funclog s)) + c = length (writes (memlog s)) + l + owed active s \<Longrightarrow>
   length (writes (funclog s')) + c = length (writes (memlog s')) + l"
proof (induction active evs arbitrary: s rule: protocol.induct)
  case (2 tb xs)
  from "2.prems"(2) obtain s1 where b: "before_block_exec tb s = Inr s1"
    and r: "run enc xs s1 = Inr s'"
    by (auto split: sum.splits)
  show ?case
    by (rule "2.IH" [OF _ r "2.prems"(3)])
       (use "2.prems"(1,4) before_block_exec_Inr [OF b] in \<open>auto simp: owed_def\<close>)
next
  case (3 type op dynval xs)
  from "3.prems"(2) obtain s1 where b: "step enc (LogDynval type op dynval) s = Inr s1"
    and r: "run enc xs s1 = Inr s'"
    by (auto split: sum.splits)
  show ?case
    by (rule "3.IH" [OF _ r "3.prems"(3)])
       (use "3.prems"(1,4) log_dynval_step_Inr [OF b] in \<open>auto simp: owed_def\<close>)
next
  case (4 tb next_tb xs)
  from "4.prems"(2) obtain s1 where b: "after_block_exec tb next_tb s = Inr s1"
    and r: "run enc xs s1 = Inr s'"
    by (auto split: sum.splits)
  show ?case
    by (rule "4.IH" [OF _ r "4.prems"(3)])
       (use "4.prems"(1,4) after_block_exec_Inr [OF b] in \<open>auto simp: owed_def\<close>)
next
  case (5 tb xs)
  from "5.prems"(2) obtain s1 where b: "cb_cpu_restore_state enc tb s = Inr s1"
    and r: "run enc xs s1 = Inr s'"
    by (auto split: sum.splits)
  show ?case
    by (rule "5.IH" [OF _ r "5.prems"(3)])
       (use "5.prems"(1,3,4) cb_cpu_restore_state_Inr [OF b] in \<open>auto simp: owed_def\<close>)
next
  case (6 xs)
  then have xs: "xs = []" by simp
  with "6.prems"(2) have b: "uninit_plugin s = Inr s'" by (auto split: sum.splits)
  show ?case
    using "6.prems"(4) uninit_plugin_Inr [OF b] by (auto simp: owed_def split: if_splits)
qed simp_all

lemma protocol_units:
  "protocol active evs \<Longrightarrow>
   length (executed evs) + (if active then 1 else 0) = completed evs + faulted evs"
  by (induction active evs rule: protocol.induct) simp_all

text \<open>
  C4, amended. In a run that follows the hook protocol up to teardown, starts on an
  empty buffer and does not crash, with an exception marker that is not empty: the
  number of ledger entries made and the number of writes made to the value log both
  equal the number of units that completed normally plus the number of units that a
  fault interrupted.
\<close>

theorem ledger_entries_match_flushes:
  assumes "protocol False evs"
    and "run enc evs s = Inr s'"
    and "encode enc (exception_entry enc) \<noteq> []"
    and "cur_size (dynval_buffer s) = 0"
  shows "length (writes (funclog s')) = length (writes (funclog s)) + completed evs + faulted evs
       \<and> length (writes (memlog s')) = length (writes (memlog s)) + completed evs + faulted evs"
proof -
  have l: "length (writes (funclog s')) = length (writes (funclog s)) + length (executed evs)"
    using run_ledger [OF assms(2)] by simp
  have u: "length (executed evs) = completed evs + faulted evs"
    using protocol_units [OF assms(1)] by simp
  have "length (writes (funclog s)) + length (writes (memlog s))
          = length (writes (memlog s)) + length (writes (funclog s)) + owed False s"
    using assms(4) by (simp add: owed_def)
  from protocol_balance [OF assms(1,2,3) this]
  have "length (writes (funclog s')) + length (writes (memlog s))
          = length (writes (memlog s')) + length (writes (funclog s))" .
  with l u show ?thesis by simp
qed

theorem ledger_entries_match_flushes_witness:
  "protocol False fault_run
   \<and> run sample_encoder fault_run (started 6) = Inr fault_run_state
   \<and> encode sample_encoder (exception_entry sample_encoder) \<noteq> []
   \<and> cur_size (dynval_buffer (started 6)) = 0
   \<and> length (writes (funclog fault_run_state)) = 3
   \<and> length (writes (memlog fault_run_state)) = 3
   \<and> completed fault_run + faulted fault_run = 3"
proof -
  have p: "protocol False fault_run"
    by (simp add: fault_run_def record_event_def)
  have r: "run sample_encoder fault_run (started 6) = Inr fault_run_state"
    by (simp add: fault_run_def fault_run_state_def hook_defs sample_defs)
  have m: "encode sample_encoder (exception_entry sample_encoder) \<noteq> []"
    by (simp add: sample_defs)
  have c: "cur_size (dynval_buffer (started 6)) = 0"
    by (simp add: started_def)
  have n: "completed fault_run + faulted fault_run = 3"
    by (simp add: fault_run_def record_event_def)
  from ledger_entries_match_flushes [OF p r m c] p r m c n show ?thesis
    by (simp add: started_def)
qed

text \<open>
  The claim as stated fails: when a fault has interrupted a unit, the ledger has the
  unit's entry and nothing has been written to the value log; the only write is
  made later, here by teardown.
\<close>

theorem ledger_entry_without_flush_counterexample:
  "run sample_encoder [BeforeBlock unit_A, RestoreState unit_A] (started 3) =
     Inr \<lparr>dynval_buffer = \<lparr>start = [3, 3, 0], cur_size = 3\<rparr>,
          memlog = Open [], funclog = Open [''A'' @ [newline]], infd = - 1, outfd = - 1\<rparr>
   \<and> uninit_plugin
       \<lparr>dynval_buffer = \<lparr>start = [3, 3, 0], cur_size = 3\<rparr>,
          memlog = Open [], funclog = Open [''A'' @ [newline]], infd = - 1, outfd = - 1\<rparr> =
     Inr \<lparr>dynval_buffer = \<lparr>start = [3, 3, 0], cur_size = 3\<rparr>,
          memlog = Closed [[3, 3, 0]], funclog = Closed [''A'' @ [newline]],
          infd = - 1, outfd = - 1\<rparr>"
  by (simp add: hook_defs sample_defs)

section \<open>The fault signal\<close>

text \<open>
  C2, amended. A unit starts on an empty buffer and records the events \<open>es\<close>; then a
  fault diverts control (events and marker fit the capacity, and the marker is not
  empty). \<open>cb_cpu_restore_state\<close> appends the exception marker to the buffer and
  writes nothing to the value log or the ledger: the buffer then holds exactly the
  events followed by the marker. The next \<open>before_block_exec\<close> writes exactly these
  bytes to the value log and sets the cursor to 0; at teardown, \<open>uninit_plugin\<close>
  writes them before it closes the value log.
\<close>

theorem fault_marker_buffered_until_next_flush:
  assumes "memlog s = Open ml" "funclog s = Open fl"
    and "cur_size (dynval_buffer s) = 0"
    and "length (concat (map (encode enc) es)) + length (encode enc (exception_entry enc))
           \<le> capacity (dynval_buffer s)"
    and "encode enc (exception_entry enc) \<noteq> []"
  shows "\<exists>s1. run enc (map record_event es @ [RestoreState tb]) s = Inr s1
           \<and> memlog s1 = Open ml \<and> funclog s1 = Open fl
           \<and> 0 < cur_size (dynval_buffer s1)
           \<and> take (cur_size (dynval_buffer s1)) (start (dynval_buffer s1))
               = concat (map (encode enc) es) @ encode enc (exception_entry enc)
           \<and> (\<exists>s2. before_block_exec next_tb s1 = Inr s2
                 \<and> memlog s2 = Open (ml @ [concat (map (encode enc) es)
                                              @ encode enc (exception_entry enc)])
                 \<and> cur_size (dynval_buffer s2) = 0)
           \<and> (\<exists>s3. uninit_plugin s1 = Inr s3
                 \<and> memlog s3 = Closed (ml @ [concat (map (encode enc) es)
                                                @ encode enc (exception_entry enc)]))"
proof -
  let ?bytes = "concat (map (encode enc) es)"
  let ?mark = "encode enc (exception_entry enc)"
  have fit: "length ?bytes \<le> capacity (dynval_buffer s)"
    using assms(4) by simp
  from run_unit_events [OF assms(3) fit] obtain s0 where
    r: "run enc (map record_event es) s = Inr s0"
    and m: "memlog s0 = memlog s" and f: "funclog s0 = funclog s"
    and c: "capacity (dynval_buffer s0) = capacity (dynval_buffer s)"
    and n: "cur_size (dynval_buffer s0) = length ?bytes"
    and p: "pending (dynval_buffer s0) = ?bytes"
    by blast
  have room: "cur_size (dynval_buffer s0) + length ?mark \<le> length (start (dynval_buffer s0))"
    using n c assms(4) by (simp add: capacity_def)
  then obtain b where w: "write_dynval_buffer (dynval_buffer s0) ?mark = Inr b"
    using write_dynval_buffer_fits by blast
  have le0: "cur_size (dynval_buffer s0) \<le> length (start (dynval_buffer s0))"
    using room by simp
  note wb = write_dynval_buffer_Inr [OF w le0]
  let ?s1 = "s0\<lparr>dynval_buffer := b\<rparr>"
  have step: "cb_cpu_restore_state enc tb s0 = Inr ?s1"
    using w by (simp add: cb_cpu_restore_state_def log_exception_def)
  have run1: "run enc (map record_event es @ [RestoreState tb]) s = Inr ?s1"
    using r step by (simp add: run_append)
  have pos: "0 < cur_size (dynval_buffer ?s1)"
    using wb(1) assms(5) by simp
  have pend: "pending (dynval_buffer ?s1) = ?bytes @ ?mark"
    using wb(3) p by simp
  have le1: "cur_size (dynval_buffer ?s1) \<le> capacity (dynval_buffer ?s1)"
    using wb(1,2) room by (simp add: capacity_def)
  have m1: "memlog ?s1 = Open ml" and f1: "funclog ?s1 = Open fl"
    using m f assms(1,2) by simp_all
  have before: "\<exists>s2. before_block_exec next_tb ?s1 = Inr s2
                 \<and> memlog s2 = Open (ml @ [?bytes @ ?mark])
                 \<and> cur_size (dynval_buffer s2) = 0"
    using before_block_exec_Open [OF f1 m1 le1, of next_tb] pos pend by simp
  have teardown: "\<exists>s3. uninit_plugin ?s1 = Inr s3
                 \<and> memlog s3 = Closed (ml @ [?bytes @ ?mark])"
    using uninit_plugin_Open [OF f1 m1 le1] pos pend by simp
  from run1 m1 f1 pos pend before teardown show ?thesis
    unfolding pending_def by blast
qed

theorem fault_marker_buffered_until_next_flush_witness:
  "memlog (started 9) = Open [] \<and> funclog (started 9) = Open []
   \<and> cur_size (dynval_buffer (started 9)) = 0
   \<and> length (concat (map (encode sample_encoder) [load_event, store_event]))
         + length (encode sample_encoder (exception_entry sample_encoder))
       \<le> capacity (dynval_buffer (started 9))
   \<and> encode sample_encoder (exception_entry sample_encoder) \<noteq> []
   \<and> (\<exists>s1. run sample_encoder (map record_event [load_event, store_event] @ [RestoreState unit_B])
              (started 9) = Inr s1
           \<and> memlog s1 = Open [] \<and> funclog s1 = Open []
           \<and> 0 < cur_size (dynval_buffer s1)
           \<and> take (cur_size (dynval_buffer s1)) (start (dynval_buffer s1))
               = concat (map (encode sample_encoder) [load_event, store_event])
                   @ encode sample_encoder (exception_entry sample_encoder)
           \<and> (\<exists>s2. before_block_exec unit_A s1 = Inr s2
                 \<and> memlog s2 = Open ([] @ [concat (map (encode sample_encoder) [load_event, store_event])
                                              @ encode sample_encoder (exception_entry sample_encoder)])
                 \<and> cur_size (dynval_buffer s2) = 0)
           \<and> (\<exists>s3. uninit_plugin s1 = Inr s3
                 \<and> memlog s3 = Closed ([] @ [concat (map (encode sample_encoder) [load_event, store_event])
                                                @ encode sample_encoder (exception_entry sample_encoder)])))"
proof -
  have h1: "memlog (started 9) = Open []" and h2: "funclog (started 9) = Open []"
    and h3: "cur_size (dynval_buffer (started 9)) = 0"
    by (simp_all add: started_def)
  have h4: "length (concat (map (encode sample_encoder) [load_event, store_event]))
         + length (encode sample_encoder (exception_entry sample_encoder))
       \<le> capacity (dynval_buffer (started 9))"
    by (simp add: started_def capacity_def sample_encoder_def)
  have h5: "encode sample_encoder (exception_entry sample_encoder) \<noteq> []"
    by (simp add: sample_encoder_def sample_encode_def)
  show ?thesis
    by (intro conjI h1 h2 h3 h4 h5 fault_marker_buffered_until_next_flush [OF h1 h2 h3 h4 h5])
qed

text \<open>
  The claim as stated fails: after the fault signal the two recorded events and the
  marker are in the buffer, the cursor is 9 and the value log is empty.
\<close>

theorem fault_signal_does_not_flush_counterexample:
  "run sample_encoder
     [BeforeBlock unit_B, record_event load_event, record_event store_event,
      RestoreState unit_B] (started 9) =
     Inr \<lparr>dynval_buffer = \<lparr>start = [0, 0, 16, 0, 1, 32, 3, 3, 0], cur_size = 9\<rparr>,
          memlog = Open [], funclog = Open [''B'' @ [newline]], infd = - 1, outfd = - 1\<rparr>"
  by (simp add: hook_defs sample_defs)

section \<open>The taint boundary\<close>

lemma strncmp_eq: "strncmp s1 s2 n = 0 \<longleftrightarrow> take n s1 = take n s2"
  by (induction s1 s2 n rule: strncmp.induct) auto

lemma strncmp_prefix:
  "n = length lit \<Longrightarrow> strncmp file lit n = 0 \<longleftrightarrow> prefix lit file"
proof -
  assume n: "n = length lit"
  have "take (length lit) file = lit \<longleftrightarrow> prefix lit file"
    by (metis append_eq_conv_conj prefix_def take_is_prefix)
  then show ?thesis by (simp add: strncmp_eq n)
qed

lemma strstr_None: "strstr h n = None \<longleftrightarrow> \<not> sublist n h"
  by (induction h) (auto simp: sublist_Cons_right)

lemma interesting_iff:
  "strncmp file ''/etc'' 4 \<noteq> 0
   \<and> strncmp file ''/lib'' 4 \<noteq> 0
   \<and> strncmp file ''/proc'' 5 \<noteq> 0
   \<and> strncmp file ''/dev'' 4 \<noteq> 0
   \<and> strncmp file ''/usr'' 4 \<noteq> 0
   \<and> strstr file ''openssl.cnf'' = None
   \<and> strstr file ''xpdfrc'' = None
   \<longleftrightarrow> \<not> excluded file"
proof -
  have "strncmp file ''/etc'' 4 = 0 \<longleftrightarrow> prefix ''/etc'' file"
    and "strncmp file ''/lib'' 4 = 0 \<longleftrightarrow> prefix ''/lib'' file"
    and "strncmp file ''/proc'' 5 = 0 \<longleftrightarrow> prefix ''/proc'' file"
    and "strncmp file ''/dev'' 4 = 0 \<longleftrightarrow> prefix ''/dev'' file"
    and "strncmp file ''/usr'' 4 = 0 \<longleftrightarrow> prefix ''/usr'' file"
    by (rule strncmp_prefix, simp)+
  then show ?thesis
    by (simp add: excluded_def strstr_None)
qed

lemma access_mode_test:
  "flags AND (O_RDONLY OR O_WRONLY) = O_RDONLY \<longleftrightarrow> flags AND O_WRONLY = 0"
  by (simp add: O_RDONLY_def O_WRONLY_def)

lemma user_open_eq:
  "user_open fcntl_flags_tbl path ret p flagarg s =
     (if 0 <s ret \<and> \<not> excluded (path p)
      then if fcntl_flags_tbl (ucast flagarg) AND O_WRONLY = 0
           then s\<lparr>infd := scast ret\<rparr> else s\<lparr>outfd := scast ret\<rparr>
      else s)"
  unfolding user_open_def Let_def interesting_iff access_mode_test by simp

lemma ld_length:
  fixes ret :: "'a::len word"
  assumes "0 <s ret" "LENGTH('a) \<le> 64"
  shows "ld (scast ret) = decimal (unat ret)"
proof -
  have up: "is_up (scast :: 'a word \<Rightarrow> 64 word)"
    using assms(2) by (simp add: is_up)
  have pos: "0 < sint ret"
    using assms(1) by (simp add: word_sless_alt)
  have "sint ret < 2 ^ (LENGTH('a) - Suc 0)" by (rule sint_less)
  also have "\<dots> \<le> (2::int) ^ LENGTH('a)" by simp
  finally have "sint ret < 2 ^ LENGTH('a)" .
  then have "uint ret = sint ret"
    using pos by (simp add: uint_sint take_bit_int_eq_self)
  then have "nat (sint ret) = unat ret" by (simp add: unat_eq_nat_uint)
  then show ?thesis
    using pos by (simp add: ld_def sint_up_scast [OF up])
qed

lemma decimal_digit: "n < 10 \<Longrightarrow> decimal n = [''0123456789'' ! n]"
  by (simp add: decimal.simps)

lemma decimal_step:
  "10 \<le> n \<Longrightarrow> decimal n = decimal (n div 10) @ [''0123456789'' ! (n mod 10)]"
  by (subst decimal.simps) simp

text \<open>What \<open>decimal\<close> prints is the decimal numeral of its argument.\<close>

lemma digit_value_nth: "n < 10 \<Longrightarrow> digit_value (''0123456789'' ! n) = n"
proof -
  assume "n < 10"
  then have "n \<in> {0, 1, 2, 3, 4, 5, 6, 7, 8, 9}" by auto
  then show ?thesis by (auto simp: digit_value_def)
qed

lemma read_decimal_snoc:
  "read_decimal (cs @ [c]) = 10 * read_decimal cs + digit_value c"
  by (simp add: read_decimal_def)

lemma read_decimal_decimal: "read_decimal (decimal n) = n"
proof (induction n rule: decimal.induct)
  case (1 n)
  show ?case
  proof (cases "n < 10")
    case True
    then show ?thesis
      by (simp add: decimal_digit read_decimal_def digit_value_nth)
  next
    case False
    then have "read_decimal (decimal n) = 10 * (n div 10) + n mod 10"
      using "1.IH" by (simp add: decimal_step read_decimal_snoc digit_value_nth)
    then show ?thesis by simp
  qed
qed

lemma funclog_user_open [simp]:
  "funclog (user_open fcntl_flags_tbl path ret p flagarg s) = funclog s"
  by (simp add: user_open_eq)

lemma funclog_user_creat [simp]: "funclog (user_creat ret p s) = funclog s"
  by (simp add: user_creat_def)

text \<open>
  C6. With the ledger open (and \<open>abi_long\<close> no wider than the host's long), the
  syscall hook appends a line to the ledger exactly when the syscall is a read that
  returned \<open>r > 0\<close> on the descriptor held in \<open>infd\<close>, or a write that returned
  \<open>r > 0\<close> on the descriptor held in \<open>outfd\<close>; the line is
  \<open>taint,read,<address>,<r>\<close> or \<open>taint,write,<address>,<r>\<close>, with the address printed
  by \<open>%ld\<close> and \<open>r\<close> in decimal, and ends with a newline.
\<close>

theorem taint_line_iff:
  fixes ret arg1 arg2 arg3 :: "'a::len word"
  assumes "funclog s = Open fl" and "LENGTH('a) \<le> 64"
  shows "\<exists>s'. user_after_syscall fcntl_flags_tbl path num arg1 arg2 arg3 p ret s = Inr s'
           \<and> funclog s' = Open (fl @
               (if num = TARGET_NR_read \<and> 0 <s ret \<and> arg1 = scast (infd s)
                then [''taint,read,'' @ ld p @ '','' @ decimal (unat ret) @ [newline]]
                else if num = TARGET_NR_write \<and> 0 <s ret \<and> arg1 = scast (outfd s)
                then [''taint,write,'' @ ld p @ '','' @ decimal (unat ret) @ [newline]]
                else []))"
proof (cases num)
  case TARGET_NR_read
  then show ?thesis
    using assms by (simp add: user_read_def fprintf_def ld_length)
next
  case TARGET_NR_write
  then show ?thesis
    using assms by (simp add: user_write_def fprintf_def ld_length)
qed (use assms in simp_all)

theorem taint_line_iff_witness:
  "funclog source_open = Open [] \<and> LENGTH(64) \<le> 64
   \<and> (\<exists>s'. user_after_syscall host_flags tmp_data TARGET_NR_read
              (3 :: 64 word) 0 0 0x7fff0000 128 source_open = Inr s'
           \<and> funclog s' = Open [''taint,read,2147418112,128'' @ [newline]])"
proof -
  have h1: "funclog source_open = Open []" by (simp add: source_open_def)
  have h2: "LENGTH(64) \<le> 64" by simp
  have a: "ld 0x7fff0000 = ''2147418112''"
    by (simp add: ld_def decimal_digit decimal_step)
  have r: "decimal (unat (128 :: 64 word)) = ''128''"
    by (simp add: decimal_digit decimal_step)
  have c: "(0 :: 64 word) <s 128" by (simp add: word_sless_alt)
  have d: "(3 :: 64 word) = scast (infd source_open)" by (simp add: source_open_def)
  have "\<exists>s'. user_after_syscall host_flags tmp_data TARGET_NR_read
              (3 :: 64 word) 0 0 0x7fff0000 128 source_open = Inr s'
           \<and> funclog s' = Open [''taint,read,2147418112,128'' @ [newline]]"
    using taint_line_iff [OF h1 h2,
        of host_flags tmp_data TARGET_NR_read 3 0 0 "0x7fff0000" 128]
    unfolding a r using c d by simp
  with h1 h2 show ?thesis by blast
qed

text \<open>What the syscall hook does to the two descriptors on \<open>open\<close>, \<open>openat\<close> and \<open>creat\<close>.\<close>

lemma user_after_syscall_open:
  "user_after_syscall fcntl_flags_tbl path TARGET_NR_open arg1 arg2 arg3 p ret s =
     Inr (if 0 <s ret \<and> \<not> excluded (path p)
          then if fcntl_flags_tbl (ucast arg2) AND O_WRONLY = 0
               then s\<lparr>infd := scast ret\<rparr> else s\<lparr>outfd := scast ret\<rparr>
          else s)
   \<and> user_after_syscall fcntl_flags_tbl path TARGET_NR_openat arg1 arg2 arg3 p ret s =
     Inr (if 0 <s ret \<and> \<not> excluded (path p)
          then if fcntl_flags_tbl (ucast arg3) AND O_WRONLY = 0
               then s\<lparr>infd := scast ret\<rparr> else s\<lparr>outfd := scast ret\<rparr>
          else s)
   \<and> user_after_syscall fcntl_flags_tbl path TARGET_NR_creat arg1 arg2 arg3 p ret s =
     Inr (if 0 <s ret then s\<lparr>outfd := scast ret\<rparr> else s)"
  by (simp add: user_open_eq user_creat_def)

lemma tmp_data_interesting: "\<not> excluded (tmp_data p)"
  unfolding tmp_data_def by code_simp

lemma etc_passwd_excluded: "excluded (etc_passwd p)"
  by (simp add: etc_passwd_def excluded_def)

text \<open>
  C7. A \<open>creat\<close> of \<open>/etc/passwd\<close> returns descriptor 5. The path is on the exclusion
  list, and \<open>user_creat\<close> remembers the descriptor as the taint sink without
  classifying the path; an \<open>open\<close> of the same path for writing is classified by
  \<open>user_open\<close> and leaves the descriptors as they are.
\<close>

theorem creat_remembers_excluded_path:
  "strncmp (etc_passwd 0) ''/etc'' 4 = 0
   \<and> user_after_syscall host_flags etc_passwd TARGET_NR_creat (0 :: 32 word) 0 0 0 5 (started 0) =
       Inr ((started 0)\<lparr>outfd := 5\<rparr>)
   \<and> user_after_syscall host_flags etc_passwd TARGET_NR_open (0 :: 32 word) 1 0 0 5 (started 0) =
       Inr (started 0)"
proof -
  have "(0 :: 32 word) <s 5" by (simp add: word_sless_alt)
  moreover have "strncmp ''/etc/passwd'' ''/etc'' 4 = 0" by code_simp
  ultimately show ?thesis
    by (simp add: etc_passwd_def user_creat_def user_open_eq etc_passwd_excluded [unfolded etc_passwd_def])
qed

text \<open>
  C10, amended. For an open that returns a descriptor greater than 0, of a path that is not
  excluded, with access mode \<open>O_RDWR\<close>: the test
  \<open>(flags & (O_RDONLY | O_WRONLY)) == O_RDONLY\<close> holds, the descriptor becomes \<open>infd\<close>,
  and \<open>outfd\<close> keeps its value.
\<close>

theorem rdwr_open_is_taint_source:
  assumes "0 <s ret" and "\<not> excluded (path p)"
    and "fcntl_flags_tbl (ucast flagarg) AND O_ACCMODE = O_RDWR"
  shows "fcntl_flags_tbl (ucast flagarg) AND (O_RDONLY OR O_WRONLY) = O_RDONLY
       \<and> user_open fcntl_flags_tbl path ret p flagarg s = s\<lparr>infd := scast ret\<rparr>
       \<and> outfd (user_open fcntl_flags_tbl path ret p flagarg s) = outfd s"
proof -
  let ?flags = "fcntl_flags_tbl (ucast flagarg)"
  have "?flags AND O_WRONLY = (?flags AND O_ACCMODE) AND O_WRONLY"
    by (simp add: O_ACCMODE_def O_WRONLY_def and.assoc)
  also have "\<dots> = 0"
    by (simp add: assms(3) O_RDWR_def O_WRONLY_def)
  finally have w: "?flags AND O_WRONLY = 0" .
  then show ?thesis
    using assms(1,2) by (simp add: user_open_eq access_mode_test)
qed

theorem rdwr_open_is_taint_source_witness:
  "(0 :: 32 word) <s 4 \<and> \<not> excluded (tmp_data 0)
   \<and> host_flags (ucast (2 :: 32 word)) AND O_ACCMODE = O_RDWR
   \<and> host_flags (ucast (2 :: 32 word)) AND (O_RDONLY OR O_WRONLY) = O_RDONLY
   \<and> user_open host_flags tmp_data (4 :: 32 word) 0 (2 :: 32 word) (started 0)
       = (started 0)\<lparr>infd := scast (4 :: 32 word)\<rparr>
   \<and> outfd (user_open host_flags tmp_data (4 :: 32 word) 0 (2 :: 32 word) (started 0))
       = outfd (started 0)"
proof -
  have h1: "(0 :: 32 word) <s 4" by (simp add: word_sless_alt)
  have h2: "\<not> excluded (tmp_data 0)" by (rule tmp_data_interesting)
  have h3: "host_flags (ucast (2 :: 32 word)) AND O_ACCMODE = O_RDWR"
    by (simp add: host_flags_def O_ACCMODE_def O_RDWR_def)
  from rdwr_open_is_taint_source
         [where ret = "4 :: 32 word" and path = tmp_data and p = 0
            and fcntl_flags_tbl = host_flags and flagarg = "2 :: 32 word"
            and s = "started 0", OF h1 h2 h3]
       h1 h2 h3
  show ?thesis by blast
qed

text \<open>
  The claim as stated fails: an open with access mode \<open>O_RDWR\<close> of a path that is
  not excluded succeeds with descriptor 0, and no descriptor is designated.
\<close>

theorem rdwr_open_descriptor_zero_counterexample:
  "\<not> excluded (tmp_data 0)
   \<and> host_flags (ucast (2 :: 32 word)) AND O_ACCMODE = O_RDWR
   \<and> user_open host_flags tmp_data (0 :: 32 word) 0 (2 :: 32 word) (started 0) = started 0"
  by (simp add: tmp_data_interesting host_flags_def O_ACCMODE_def O_RDWR_def user_open_eq)

end
